theory Spec2Isabelle
  imports Main "HOL-Library.Char_ord" "HOL-Library.List_Lexorder"
begin

section \<open>Strings\<close>

text \<open>
  A Python \<open>str\<close> is a sequence of code points. It is modelled as a \<open>string\<close> in which
  every \<open>char\<close> stands for one code point below 256, so \<open>length\<close> is \<open>len\<close>,
  \<open>take 10\<close> is the slice \<open>[:10]\<close>, and the lexicographic order of
  \<open>HOL-Library.List_Lexorder\<close> over \<open>HOL-Library.Char_ord\<close> is the order in which the
  key-value store compares string keys (byte order of UTF-8, which is code point order).
\<close>

text \<open>\<open>str.lower\<close> on one code point below 256: the ASCII capitals and the Latin-1
  capitals U+00C0..U+00DE (without the multiplication sign U+00D7) move up by 32.\<close>

definition lower_char :: "char \<Rightarrow> char" where
  "lower_char c =
     (let n = (of_char c :: nat)
      in if (65 \<le> n \<and> n \<le> 90) \<or> (192 \<le> n \<and> n \<le> 222 \<and> n \<noteq> 215)
         then char_of (n + 32) else c)"

definition lower :: "string \<Rightarrow> string" where
  "lower s = map lower_char s"

section \<open>load\_data.py: keyword extraction\<close>

definition STOPWORDS :: "string list" where
  "STOPWORDS =
    [''the'', ''a'', ''an'', ''and'', ''or'', ''but'', ''in'', ''on'', ''at'', ''to'', ''for'',
     ''of'', ''with'', ''by'', ''from'', ''up'', ''about'', ''into'', ''through'', ''during'',
     ''is'', ''are'', ''was'', ''were'', ''be'', ''been'', ''being'', ''have'', ''has'', ''had'',
     ''do'', ''does'', ''did'', ''will'', ''would'', ''could'', ''should'', ''may'', ''might'',
     ''can'', ''this'', ''that'', ''these'', ''those'', ''we'', ''our'', ''use'', ''using'',
     ''based'', ''approach'', ''method'', ''paper'', ''propose'', ''proposed'', ''show'']"

text \<open>The two character classes of the pattern \<open>[A-Za-z][A-Za-z0-9\-]*\<close>.\<close>

definition is_letter :: "char \<Rightarrow> bool" where
  "is_letter c \<longleftrightarrow> (CHR ''A'' \<le> c \<and> c \<le> CHR ''Z'') \<or> (CHR ''a'' \<le> c \<and> c \<le> CHR ''z'')"

definition is_word_char :: "char \<Rightarrow> bool" where
  "is_word_char c \<longleftrightarrow> is_letter c \<or> (CHR ''0'' \<le> c \<and> c \<le> CHR ''9'') \<or> c = CHR ''-''"

text \<open>
  \<open>re.findall\<close> scans from the left: at a letter it takes the longest run of word
  characters as one match and goes on behind it, at any other character it moves on by one.
\<close>

function findall_words :: "string \<Rightarrow> string list" where
  "findall_words [] = []"
| "findall_words (c # cs) =
     (if is_letter c
      then (c # takeWhile is_word_char cs) # findall_words (dropWhile is_word_char cs)
      else findall_words cs)"
  by pat_completeness auto
termination
  by (relation "measure length") (auto simp: length_dropWhile_le less_Suc_eq_le)

definition tokenize :: "string \<Rightarrow> string list" where
  "tokenize text = map lower (findall_words text)"

text \<open>
  \<open>Counter(filtered)\<close>: a dictionary in insertion order, so an association list whose keys
  stand in order of first occurrence; each element either bumps its entry in place or is
  appended with count 1.
\<close>

fun counter_add :: "(string \<times> nat) list \<Rightarrow> string \<Rightarrow> (string \<times> nat) list" where
  "counter_add [] w = [(w, 1)]"
| "counter_add ((k, c) # kcs) w =
     (if k = w then (k, c + 1) # kcs else (k, c) # counter_add kcs w)"

definition Counter :: "string list \<Rightarrow> (string \<times> nat) list" where
  "Counter ws = foldl counter_add [] ws"

text \<open>
  \<open>Counter.most_common(n)\<close> is \<open>sorted(items, key=count, reverse=True)[:n]\<close>; Python's sort
  is stable also under \<open>reverse=True\<close>, so this is the stable sort by negated count.
\<close>

definition most_common :: "nat \<Rightarrow> (string \<times> nat) list \<Rightarrow> (string \<times> nat) list" where
  "most_common n items = take n (sort_key (\<lambda>wc. - int (snd wc)) items)"

definition filtered_tokens :: "string \<Rightarrow> string list" where
  "filtered_tokens abstract =
     filter (\<lambda>t. t \<notin> set STOPWORDS \<and> length t \<ge> 3) (tokenize abstract)"

definition extract_keywords :: "string \<Rightarrow> nat \<Rightarrow> string list" where
  "extract_keywords abstract topk =
     (let tokens = tokenize abstract;
          filtered = filter (\<lambda>t. t \<notin> set STOPWORDS \<and> length t \<ge> 3) tokens;
          counts = Counter filtered
      in map fst (most_common topk counts))"

section \<open>load\_data.py: date normalization\<close>

text \<open>
  The value of \<open>datetime.fromisoformat\<close>: the fields of the parsed timestamp, with the
  offset from UTC in minutes when the string carries one.
\<close>

record datetime =
  year :: nat
  month :: nat
  day :: nat
  hour :: nat
  minute :: nat
  second :: nat
  utcoffset :: "int option"

text \<open>
  \<open>datetime.fromisoformat\<close> belongs to the standard library and its accepted syntax
  differs between Python versions, so the parser is a parameter of the loader. On a
  \<open>str\<close> it returns a \<open>datetime\<close> or raises \<open>ValueError\<close>; \<open>None\<close> is that
  \<open>ValueError\<close>. The loader only ever passes it a \<open>str\<close> (see \<open>safe_str\<close>).
\<close>

type_synonym iso_parser = "string \<Rightarrow> datetime option"

text \<open>\<open>s.replace(old, new)\<close> for a one-character \<open>old\<close>: every occurrence is replaced.\<close>

definition replace_char :: "char \<Rightarrow> string \<Rightarrow> string \<Rightarrow> string" where
  "replace_char old new s = concat (map (\<lambda>c. if c = old then new else [c]) s)"

definition digit :: "nat \<Rightarrow> char" where
  "digit d = char_of (48 + d mod 10)"

definition zero_pad2 :: "nat \<Rightarrow> string" where
  "zero_pad2 n = [digit (n div 10), digit n]"

text \<open>
  \<open>dt.strftime("%Y-%m-%d")\<close>: the local date fields of the timestamp, with no conversion
  to UTC. \<open>strftime\<close> hands the format to the C library, and \<open>%Y\<close> is modelled as glibc
  writes it, the year in decimal with no leading zeros (\<open>999\<close> for the year 999); from the
  year 1000 on that is the four-digit year of every platform. \<open>%m\<close> and \<open>%d\<close> are the
  month and the day in two digits.
\<close>

function decimal :: "nat \<Rightarrow> string" where
  "decimal n = (if n < 10 then [digit n] else decimal (n div 10) @ [digit n])"
  by pat_completeness auto
termination
  by (relation "measure (\<lambda>n. n)") auto

declare decimal.simps [simp del]

definition strftime_ymd :: "datetime \<Rightarrow> string" where
  "strftime_ymd dt = decimal (year dt) @ ''-'' @ zero_pad2 (month dt) @ ''-'' @ zero_pad2 (day dt)"

definition iso_to_date :: "iso_parser \<Rightarrow> string \<Rightarrow> string" where
  "iso_to_date fromisoformat iso_str =
     (case fromisoformat (replace_char CHR ''Z'' ''+00:00'' iso_str) of
        None \<Rightarrow> take 10 iso_str
      | Some dt \<Rightarrow> strftime_ymd dt)"

subsection \<open>A concrete parser\<close>

text \<open>
  An instance of the parameter for evaluating the loader: the extended forms
  \<open>YYYY-MM-DD\<close>, \<open>YYYY-MM-DD*HH:MM:SS\<close> and \<open>YYYY-MM-DD*HH:MM:SS+HH:MM\<close> (any one
  character as separator, \<open>+\<close> or \<open>-\<close> as sign), with the range checks of the
  \<open>datetime\<close> constructor. Every version of \<open>datetime.fromisoformat\<close> accepts these
  strings with the same result.
\<close>

definition digit_val :: "char \<Rightarrow> nat option" where
  "digit_val c = (if CHR ''0'' \<le> c \<and> c \<le> CHR ''9'' then Some (of_char c - 48) else None)"

fun number_from :: "nat \<Rightarrow> string \<Rightarrow> nat option" where
  "number_from acc [] = Some acc"
| "number_from acc (c # cs) =
     (case digit_val c of None \<Rightarrow> None | Some d \<Rightarrow> number_from (10 * acc + d) cs)"

definition is_leap :: "nat \<Rightarrow> bool" where
  "is_leap y \<longleftrightarrow> y mod 4 = 0 \<and> (y mod 100 \<noteq> 0 \<or> y mod 400 = 0)"

definition days_in_month :: "nat \<Rightarrow> nat \<Rightarrow> nat" where
  "days_in_month y m =
     (if m = 2 then (if is_leap y then 29 else 28)
      else if m = 4 \<or> m = 6 \<or> m = 9 \<or> m = 11 then 30 else 31)"

definition parse_date :: "string \<Rightarrow> (nat \<times> nat \<times> nat) option" where
  "parse_date s =
     (if length s = 10 \<and> s ! 4 = CHR ''-'' \<and> s ! 7 = CHR ''-''
      then (case (number_from 0 (take 4 s), number_from 0 (take 2 (drop 5 s)),
                  number_from 0 (drop 8 s)) of
              (Some y, Some m, Some d) \<Rightarrow>
                if 1 \<le> y \<and> 1 \<le> m \<and> m \<le> 12 \<and> 1 \<le> d \<and> d \<le> days_in_month y m
                then Some (y, m, d) else None
            | _ \<Rightarrow> None)
      else None)"

definition parse_time :: "string \<Rightarrow> (nat \<times> nat \<times> nat) option" where
  "parse_time s =
     (if length s = 8 \<and> s ! 2 = CHR '':'' \<and> s ! 5 = CHR '':''
      then (case (number_from 0 (take 2 s), number_from 0 (take 2 (drop 3 s)),
                  number_from 0 (drop 6 s)) of
              (Some h, Some m, Some sec) \<Rightarrow>
                if h < 24 \<and> m < 60 \<and> sec < 60 then Some (h, m, sec) else None
            | _ \<Rightarrow> None)
      else None)"

definition parse_offset :: "string \<Rightarrow> int option" where
  "parse_offset s =
     (if length s = 6 \<and> (s ! 0 = CHR ''+'' \<or> s ! 0 = CHR ''-'') \<and> s ! 3 = CHR '':''
      then (case (number_from 0 (take 2 (drop 1 s)), number_from 0 (drop 4 s)) of
              (Some h, Some m) \<Rightarrow>
                if h < 24 \<and> m < 60
                then Some ((if s ! 0 = CHR ''-'' then - 1 else 1) * int (60 * h + m))
                else None
            | _ \<Rightarrow> None)
      else None)"

definition fromisoformat_ext :: iso_parser where
  "fromisoformat_ext s =
     (case parse_date (take 10 s) of
        None \<Rightarrow> None
      | Some (y, m, d) \<Rightarrow>
          if length s = 10
          then Some \<lparr>year = y, month = m, day = d, hour = 0, minute = 0, second = 0,
                     utcoffset = None\<rparr>
          else (case parse_time (take 8 (drop 11 s)) of
                  None \<Rightarrow> None
                | Some (h, mi, sec) \<Rightarrow>
                    if length s = 19
                    then Some \<lparr>year = y, month = m, day = d, hour = h, minute = mi,
                               second = sec, utcoffset = None\<rparr>
                    else if length s = 25
                    then (case parse_offset (drop 19 s) of
                            None \<Rightarrow> None
                          | Some off \<Rightarrow>
                              Some \<lparr>year = y, month = m, day = d, hour = h, minute = mi,
                                    second = sec, utcoffset = Some off\<rparr>)
                    else None))"

section \<open>load\_data.py: the loader\<close>

text \<open>
  One element of the input array: a JSON object read with \<open>p.get\<close>, which gives \<open>None\<close>
  for an absent key and for \<open>null\<close>. The text fields hold strings and the two list fields
  hold lists of strings, as the input format has them.
\<close>

record raw_paper =
  raw_arxiv_id :: "string option"
  raw_id :: "string option"
  raw_title :: "string option"
  raw_authors :: "string list option"
  raw_abstract :: "string option"
  raw_categories :: "string list option"
  raw_published :: "string option"
  raw_updated :: "string option"
  raw_date :: "string option"

text \<open>Python's \<open>x or y\<close> on optional strings and lists: \<open>None\<close> and the empty value are
  falsy.\<close>

definition py_or :: "'a list option \<Rightarrow> 'a list option \<Rightarrow> 'a list option" where
  "py_or x y = (case x of Some (a # as) \<Rightarrow> x | _ \<Rightarrow> y)"

definition or_empty :: "'a list option \<Rightarrow> 'a list" where
  "or_empty x = (case py_or x (Some []) of Some l \<Rightarrow> l | None \<Rightarrow> [])"

definition safe_str :: "string option \<Rightarrow> string" where
  "safe_str x = (case x of None \<Rightarrow> [] | Some s \<Rightarrow> s)"

text \<open>The dictionary \<open>core\<close> that every item carries; \<open>core_keywords\<close> is its entry
  \<open>"keywords"\<close>.\<close>

record core =
  arxiv_id :: string
  title :: string
  authors :: "string list"
  abstract :: string
  categories :: "string list"
  core_keywords :: "string list"
  published :: string

text \<open>
  A stored item: the key attributes, the secondary-index attributes that this kind of
  item has (\<open>None\<close> when the dictionary has no such entry), and the entries of \<open>core\<close>,
  which the source spreads into the item with \<open>**core\<close>.
\<close>

record item =
  PK :: string
  SK :: string
  GSI1PK :: "string option"
  GSI1SK :: "string option"
  GSI2PK :: "string option"
  GSI2SK :: "string option"
  GSI3PK :: "string option"
  GSI3SK :: "string option"
  payload :: core

definition paper_item :: "string \<Rightarrow> string \<Rightarrow> core \<Rightarrow> item" where
  "paper_item arxiv_id' date_str core' =
     \<lparr>PK = ''PAPER#'' @ arxiv_id', SK = ''A'', GSI1PK = None, GSI1SK = None,
      GSI2PK = Some (''PAPER#'' @ arxiv_id'), GSI2SK = Some date_str,
      GSI3PK = None, GSI3SK = None, payload = core'\<rparr>"

definition cat_item :: "string \<Rightarrow> string \<Rightarrow> core \<Rightarrow> string \<Rightarrow> item" where
  "cat_item arxiv_id' date_str core' cat =
     \<lparr>PK = ''CATEGORY#'' @ cat, SK = date_str @ ''#'' @ arxiv_id', GSI1PK = None,
      GSI1SK = None, GSI2PK = None, GSI2SK = None, GSI3PK = None, GSI3SK = None,
      payload = core'\<rparr>"

definition a_item :: "string \<Rightarrow> string \<Rightarrow> core \<Rightarrow> string \<Rightarrow> item" where
  "a_item arxiv_id' date_str core' author =
     \<lparr>PK = ''AUTHOR#'' @ author, SK = date_str @ ''#'' @ arxiv_id',
      GSI1PK = Some (''AUTHOR#'' @ author), GSI1SK = Some (date_str @ ''#'' @ arxiv_id'),
      GSI2PK = None, GSI2SK = None, GSI3PK = None, GSI3SK = None, payload = core'\<rparr>"

definition k_item :: "string \<Rightarrow> string \<Rightarrow> core \<Rightarrow> string \<Rightarrow> item" where
  "k_item arxiv_id' date_str core' kw =
     \<lparr>PK = ''KEYWORD#'' @ kw, SK = date_str @ ''#'' @ arxiv_id', GSI1PK = None,
      GSI1SK = None, GSI2PK = None, GSI2SK = None,
      GSI3PK = Some (''KEYWORD#'' @ kw), GSI3SK = Some (date_str @ ''#'' @ arxiv_id'),
      payload = core'\<rparr>"

text \<open>
  The table holds at most one item for each pair of partition key and sort key. A put
  replaces the item stored under the same pair or adds the item.
\<close>

type_synonym table = "item list"

definition key_of :: "item \<Rightarrow> string \<times> string" where
  "key_of it = (PK it, SK it)"

fun table_put :: "item \<Rightarrow> table \<Rightarrow> table" where
  "table_put it [] = [it]"
| "table_put it (x # xs) = (if key_of x = key_of it then it # xs else x # table_put it xs)"

text \<open>The table read as a map from (partition key, sort key) to the stored item.\<close>

definition table_map :: "table \<Rightarrow> (string \<times> string) \<rightharpoonup> item" where
  "table_map tbl = map_of (map (\<lambda>it. (key_of it, it)) tbl)"

text \<open>
  The state of the loop in \<open>main\<close>: the table behind the batch writer, the items handed
  to \<open>bw.put_item\<close> in order, the four counters of \<open>stats\<close> and \<open>total_papers\<close>. The batch
  writer buffers the requests and sends them in groups; with
  \<open>overwrite_by_pkeys=["PK","SK"]\<close> it drops a buffered request when a later one has the
  same key pair, which leaves the table as the puts in order do.
\<close>

record loader =
  table :: table
  requests :: "item list"
  paper_id_items :: nat
  category_items :: nat
  author_items :: nat
  keyword_items :: nat
  total_papers :: nat

definition put_item :: "item \<Rightarrow> loader \<Rightarrow> loader" where
  "put_item it st = st\<lparr>table := table_put it (table st), requests := requests st @ [it]\<rparr>"

definition put_category :: "string \<Rightarrow> string \<Rightarrow> core \<Rightarrow> loader \<Rightarrow> string \<Rightarrow> loader" where
  "put_category arxiv_id' date_str core' st cat =
     (let st' = put_item (cat_item arxiv_id' date_str core' cat) st
      in st'\<lparr>category_items := category_items st' + 1\<rparr>)"

definition put_author :: "string \<Rightarrow> string \<Rightarrow> core \<Rightarrow> loader \<Rightarrow> string \<Rightarrow> loader" where
  "put_author arxiv_id' date_str core' st author =
     (let st' = put_item (a_item arxiv_id' date_str core' author) st
      in st'\<lparr>author_items := author_items st' + 1\<rparr>)"

definition put_keyword :: "string \<Rightarrow> string \<Rightarrow> core \<Rightarrow> loader \<Rightarrow> string \<Rightarrow> loader" where
  "put_keyword arxiv_id' date_str core' st kw =
     (let st' = put_item (k_item arxiv_id' date_str core' kw) st
      in st'\<lparr>keyword_items := keyword_items st' + 1\<rparr>)"

text \<open>The body of \<open>for p in papers\<close>; \<open>continue\<close> leaves the state as it is.\<close>

definition load_paper :: "iso_parser \<Rightarrow> loader \<Rightarrow> raw_paper \<Rightarrow> loader" where
  "load_paper fromisoformat st p =
     (let arxiv_id' = safe_str (py_or (raw_arxiv_id p) (raw_id p));
          title' = safe_str (raw_title p);
          authors' = or_empty (raw_authors p);
          abstract' = safe_str (raw_abstract p);
          categories' = or_empty (raw_categories p);
          published_iso = safe_str (py_or (py_or (raw_published p) (raw_updated p)) (raw_date p))
      in if arxiv_id' = [] \<or> title' = [] \<or> published_iso = [] then st
         else
           let date_str = iso_to_date fromisoformat published_iso;
               keywords' = extract_keywords abstract' 10;
               core' = \<lparr>arxiv_id = arxiv_id', title = title', authors = authors',
                        abstract = abstract', categories = categories', core_keywords = keywords',
                        published = published_iso\<rparr>;
               st1 = put_item (paper_item arxiv_id' date_str core') st;
               st2 = st1\<lparr>paper_id_items := paper_id_items st1 + 1\<rparr>;
               st3 = foldl (put_category arxiv_id' date_str core') st2 categories';
               st4 = foldl (put_author arxiv_id' date_str core') st3 authors';
               st5 = foldl (put_keyword arxiv_id' date_str core') st4 keywords'
           in st5\<lparr>total_papers := total_papers st5 + 1\<rparr>)"

text \<open>
  One run of \<open>main\<close> up to the end of the \<open>with\<close> block, on the table as it stands: the
  counters start at zero in every run.
\<close>

definition main_load :: "iso_parser \<Rightarrow> raw_paper list \<Rightarrow> table \<Rightarrow> loader" where
  "main_load fromisoformat papers tbl =
     foldl (load_paper fromisoformat)
       \<lparr>table = tbl, requests = [], paper_id_items = 0, category_items = 0,
        author_items = 0, keyword_items = 0, total_papers = 0\<rparr> papers"

definition total_items :: "loader \<Rightarrow> nat" where
  "total_items st = paper_id_items st + category_items st + author_items st + keyword_items st"

section \<open>query\_papers.py\<close>

text \<open>The result envelope, without the wall-clock time; \<open>parameters\<close> echoes the
  string-valued parameters (a numeric \<open>limit\<close> is left out of the echo).\<close>

record envelope =
  query_type :: string
  parameters :: "(string \<times> string) list"
  results :: "item list"
  count :: nat

text \<open>
  \<open>table.query\<close> on the base table with \<open>Key('PK').eq(pk) & Key('SK').between(lo, hi)\<close>:
  the items of the partition whose sort key lies between the bounds, both included, in
  ascending order of the sort key. The response is taken to hold all of them (one page).
\<close>

definition query_between :: "table \<Rightarrow> string \<Rightarrow> string \<Rightarrow> string \<Rightarrow> item list" where
  "query_between tbl pk lo hi =
     sort_key SK (filter (\<lambda>it. PK it = pk \<and> lo \<le> SK it \<and> SK it \<le> hi) tbl)"

text \<open>
  \<open>table.query\<close> on a secondary index with an equality on its partition key: the index
  holds the items that have both index attributes, ordered by the index sort key.
\<close>

definition query_index ::
  "(item \<Rightarrow> string option) \<Rightarrow> (item \<Rightarrow> string option) \<Rightarrow> table \<Rightarrow> string \<Rightarrow> item list" where
  "query_index ipk isk tbl pk =
     sort_key (\<lambda>it. the (isk it)) (filter (\<lambda>it. ipk it = Some pk \<and> isk it \<noteq> None) tbl)"

definition get_paper_by_id :: "table \<Rightarrow> string \<Rightarrow> envelope" where
  "get_paper_by_id tbl arxiv_id' =
     (let items = query_index GSI2PK GSI2SK tbl (''PAPER#'' @ arxiv_id');
          item = (case items of [] \<Rightarrow> None | x # _ \<Rightarrow> Some x)
      in \<lparr>query_type = ''get_paper_by_id'',
          parameters = [(''arxiv_id'', arxiv_id')],
          results = (case item of Some x \<Rightarrow> [x] | None \<Rightarrow> []),
          count = (case item of Some x \<Rightarrow> 1 | None \<Rightarrow> 0)\<rparr>)"

definition query_papers_in_date_range :: "table \<Rightarrow> string \<Rightarrow> string \<Rightarrow> string \<Rightarrow> envelope" where
  "query_papers_in_date_range tbl category start_date end_date =
     (let items = query_between tbl (''CATEGORY#'' @ category)
                    (start_date @ ''#'') (end_date @ ''#zzzzzzz'')
      in \<lparr>query_type = ''papers_in_date_range'',
          parameters = [(''category'', category), (''start_date'', start_date),
                        (''end_date'', end_date)],
          results = items,
          count = length items\<rparr>)"

text \<open>
  \<open>query_papers_by_keyword\<close>: the keyword index partition of the case-folded keyword, in
  descending order of the index sort key (\<open>ScanIndexForward=False\<close>), cut off after
  \<open>limit\<close> items.
\<close>

definition query_papers_by_keyword :: "table \<Rightarrow> string \<Rightarrow> nat \<Rightarrow> envelope" where
  "query_papers_by_keyword tbl keyword limit =
     (let items = take limit (rev (query_index GSI3PK GSI3SK tbl (''KEYWORD#'' @ lower keyword)))
      in \<lparr>query_type = ''papers_by_keyword'',
          parameters = [(''keyword'', keyword)],
          results = items,
          count = length items\<rparr>)"

section \<open>Example inputs\<close>

text \<open>The example record of the specification's testable properties.\<close>

definition example_abstract :: string where
  "example_abstract = ''graph neural networks traffic graph prediction traffic networks graph''"

definition example_paper :: raw_paper where
  "example_paper =
     \<lparr>raw_arxiv_id = None, raw_id = Some ''2301.00001'',
      raw_title = Some ''Graph Neural Networks for Traffic'',
      raw_authors = Some [''A. Lee'', ''B. Chen''],
      raw_abstract = Some example_abstract,
      raw_categories = Some [''cs.LG''],
      raw_published = Some ''2023-01-15T10:30:00Z'', raw_updated = None, raw_date = None\<rparr>"

section \<open>Ranking of keywords\<close>

text \<open>The position at which a token first occurs in a token list.\<close>

definition first_index :: "'a list \<Rightarrow> 'a \<Rightarrow> nat" where
  "first_index xs x = length (takeWhile (\<lambda>y. y \<noteq> x) xs)"

text \<open>
  The ranking of the specification: \<open>u\<close> stands before \<open>v\<close> when it is more frequent in
  the token list, or as frequent and first seen earlier.
\<close>

definition ranks_before :: "string list \<Rightarrow> string \<Rightarrow> string \<Rightarrow> bool" where
  "ranks_before ws u v \<longleftrightarrow>
     count_list ws v < count_list ws u
     \<or> (count_list ws u = count_list ws v \<and> first_index ws u < first_index ws v)"

section \<open>The loader, record by record\<close>

text \<open>
  The values that the loop body computes from one input record, named for use in the
  statements below: the identifier and the timestamp after alias probing, the condition
  under which the record is not skipped, the dictionary \<open>core\<close>, the date in the keys,
  and the items put for the record, in order.
\<close>

definition paper_id :: "raw_paper \<Rightarrow> string" where
  "paper_id p = safe_str (py_or (raw_arxiv_id p) (raw_id p))"

definition paper_published :: "raw_paper \<Rightarrow> string" where
  "paper_published p = safe_str (py_or (py_or (raw_published p) (raw_updated p)) (raw_date p))"

definition accepted :: "raw_paper \<Rightarrow> bool" where
  "accepted p \<longleftrightarrow> paper_id p \<noteq> [] \<and> safe_str (raw_title p) \<noteq> [] \<and> paper_published p \<noteq> []"

definition paper_core :: "raw_paper \<Rightarrow> core" where
  "paper_core p =
     \<lparr>arxiv_id = paper_id p, title = safe_str (raw_title p),
      authors = or_empty (raw_authors p), abstract = safe_str (raw_abstract p),
      categories = or_empty (raw_categories p),
      core_keywords = extract_keywords (safe_str (raw_abstract p)) 10,
      published = paper_published p\<rparr>"

definition paper_date :: "iso_parser \<Rightarrow> raw_paper \<Rightarrow> string" where
  "paper_date fromisoformat p = iso_to_date fromisoformat (paper_published p)"

definition written :: "iso_parser \<Rightarrow> raw_paper \<Rightarrow> item list" where
  "written fromisoformat p =
     (if accepted p
      then paper_item (paper_id p) (paper_date fromisoformat p) (paper_core p)
           # map (cat_item (paper_id p) (paper_date fromisoformat p) (paper_core p))
               (categories (paper_core p))
           @ map (a_item (paper_id p) (paper_date fromisoformat p) (paper_core p))
               (authors (paper_core p))
           @ map (k_item (paper_id p) (paper_date fromisoformat p) (paper_core p))
               (core_keywords (paper_core p))
      else [])"

text \<open>A sequence of puts applied to a table, and the map that the puts alone build.\<close>

definition put_all :: "table \<Rightarrow> item list \<Rightarrow> table" where
  "put_all tbl its = foldl (\<lambda>t it. table_put it t) tbl its"

definition writes_map :: "item list \<Rightarrow> (string \<times> string) \<rightharpoonup> item" where
  "writes_map ws = foldl (\<lambda>m it. m(key_of it \<mapsto> it)) Map.empty ws"

text \<open>Further input records: one with a repeated author, read through the aliases
  \<open>arxiv_id\<close> and \<open>updated\<close>, and one with an empty title.\<close>

definition duplicate_author_paper :: raw_paper where
  "duplicate_author_paper =
     \<lparr>raw_arxiv_id = Some ''2301.00002'', raw_id = None,
      raw_title = Some ''Traffic Forecasting'',
      raw_authors = Some [''A. Lee'', ''A. Lee''],
      raw_abstract = Some ''traffic forecasting with graph models'',
      raw_categories = Some [''cs.LG'', ''cs.AI''],
      raw_published = None, raw_updated = Some ''2023-02-01T08:00:00Z'', raw_date = None\<rparr>"

definition untitled_paper :: raw_paper where
  "untitled_paper =
     \<lparr>raw_arxiv_id = Some ''2301.00003'', raw_id = None, raw_title = Some '''',
      raw_authors = Some [''C. Diaz''], raw_abstract = Some ''untitled work on graph search'',
      raw_categories = Some [''cs.DS''],
      raw_published = Some ''2023-03-01T00:00:00Z'', raw_updated = None, raw_date = None\<rparr>"

text \<open>The state in which \<open>main\<close> enters the loop on an empty table.\<close>

definition empty_loader :: loader where
  "empty_loader = \<lparr>table = [], requests = [], paper_id_items = 0, category_items = 0,
     author_items = 0, keyword_items = 0, total_papers = 0\<rparr>"

section \<open>Shapes and further examples\<close>






text \<open>A record whose identifier sorts behind the suffix \<open>zzzzzzz\<close> of the range query.\<close>

definition late_id_paper :: raw_paper where
  "late_id_paper =
     \<lparr>raw_arxiv_id = Some ''zzzzzzzz'', raw_id = None,
      raw_title = Some ''Graph Neural Networks for Traffic'',
      raw_authors = Some [''A. Lee''], raw_abstract = Some example_abstract,
      raw_categories = Some [''cs.LG''],
      raw_published = Some ''2023-01-15T10:30:00Z'', raw_updated = None, raw_date = None\<rparr>"

section \<open>The counter and the ranking\<close>

lemma counter_add_keys:
  "map fst (counter_add kcs w) = (if w \<in> set (map fst kcs) then map fst kcs else map fst kcs @ [w])"
  by (induction kcs w rule: counter_add.induct) auto

lemma counter_add_map_of:
  "map_of (counter_add kcs w) = (map_of kcs)(w \<mapsto> (case map_of kcs w of None \<Rightarrow> 1 | Some c \<Rightarrow> c + 1))"
  by (induction kcs w rule: counter_add.induct) (auto simp: fun_eq_iff)

lemma Counter_snoc: "Counter (ws @ [w]) = counter_add (Counter ws) w"
  by (simp add: Counter_def)

lemma Counter_Nil: "Counter [] = []"
  by (simp add: Counter_def)

lemma counter_add_keys_set: "fst ` set (counter_add kcs w) = insert w (fst ` set kcs)"
  by (induction kcs w rule: counter_add.induct) auto

lemma Counter_keys_set: "fst ` set (Counter ws) = set ws"
  by (induction ws rule: rev_induct) (simp_all add: Counter_snoc counter_add_keys_set Counter_Nil)

lemma Counter_keys_distinct: "distinct (map fst (Counter ws))"
proof (induction ws rule: rev_induct)
  case Nil
  then show ?case by (simp add: Counter_def)
next
  case (snoc w ws)
  then show ?case by (simp add: Counter_snoc counter_add_keys)
qed

lemma Counter_map_of:
  "map_of (Counter ws) w = (if w \<in> set ws then Some (count_list ws w) else None)"
proof (induction ws rule: rev_induct)
  case Nil
  then show ?case by (simp add: Counter_def)
next
  case (snoc x ws)
  then show ?case by (auto simp: Counter_snoc counter_add_map_of)
qed

lemma Counter_count: "(w, c) \<in> set (Counter ws) \<Longrightarrow> c = count_list ws w \<and> w \<in> set ws"
  using Counter_map_of [of ws w] Counter_keys_distinct [of ws]
  by (auto split: if_splits)

lemma first_index_snoc_mem: "u \<in> set ws \<Longrightarrow> first_index (ws @ [w]) u = first_index ws u"
  by (simp add: first_index_def takeWhile_append1 [of u])

lemma first_index_lt: "u \<in> set ws \<Longrightarrow> first_index ws u < length ws"
  unfolding first_index_def by (induction ws) auto

lemma first_index_snoc_new: "w \<notin> set ws \<Longrightarrow> first_index (ws @ [w]) w = length ws"
  unfolding first_index_def by (induction ws) auto

lemma Counter_keys_order:
  "sorted_wrt (\<lambda>u v. first_index ws u < first_index ws v) (map fst (Counter ws))"
proof (induction ws rule: rev_induct)
  case Nil
  then show ?case by (simp add: Counter_def)
next
  case (snoc w ws)
  have old: "sorted_wrt (\<lambda>u v. first_index (ws @ [w]) u < first_index (ws @ [w]) v) (map fst (Counter ws))"
    using snoc by (rule sorted_wrt_mono_rel [rotated]) (simp add: Counter_keys_set first_index_snoc_mem)
  show ?case
  proof (cases "w \<in> set ws")
    case True
    then show ?thesis using old by (simp add: Counter_snoc counter_add_keys Counter_keys_set)
  next
    case False
    then show ?thesis using old
      by (auto simp: Counter_snoc counter_add_keys Counter_keys_set sorted_wrt_append
          first_index_snoc_new first_index_snoc_mem first_index_lt)
  qed
qed

lemma insort_key_stable_wrt:
  assumes "sorted_wrt (\<lambda>a b. g a < g b \<or> (g a = g b \<and> Q a b)) ys" and "\<forall>y\<in>set ys. Q x y"
  shows "sorted_wrt (\<lambda>a b. g a < g b \<or> (g a = g b \<and> Q a b)) (insort_key g x ys)"
  using assms
proof (induction ys)
  case Nil
  then show ?case by simp
next
  case (Cons y ys)
  then show ?case by (fastforce simp: set_insort_key)
qed

lemma sort_key_stable_wrt:
  "sorted_wrt Q xs \<Longrightarrow> sorted_wrt (\<lambda>a b. g a < g b \<or> (g a = g b \<and> Q a b)) (sort_key g xs)"
  for g :: "'a \<Rightarrow> 'b::linorder"
proof (induction xs)
  case Nil
  then show ?case by simp
next
  case (Cons x xs)
  then show ?case by (auto intro!: insort_key_stable_wrt)
qed

lemma ranking_sorted:
  "sorted_wrt (ranks_before ws) (map fst (sort_key (\<lambda>wc. - int (snd wc)) (Counter ws)))"
proof -
  let ?g = "\<lambda>wc::string \<times> nat. - int (snd wc)"
  let ?Q = "\<lambda>a b::string \<times> nat. first_index ws (fst a) < first_index ws (fst b)"
  have "sorted_wrt ?Q (Counter ws)"
    using Counter_keys_order [of ws] by (simp add: sorted_wrt_map)
  then have "sorted_wrt (\<lambda>a b. ?g a < ?g b \<or> (?g a = ?g b \<and> ?Q a b)) (sort_key ?g (Counter ws))"
    by (rule sort_key_stable_wrt)
  then have "sorted_wrt (\<lambda>a b. ranks_before ws (fst a) (fst b)) (sort_key ?g (Counter ws))"
  proof (rule sorted_wrt_mono_rel [rotated])
    fix a b assume "a \<in> set (sort_key ?g (Counter ws))" "b \<in> set (sort_key ?g (Counter ws))"
      and r: "?g a < ?g b \<or> (?g a = ?g b \<and> ?Q a b)"
    then have "snd a = count_list ws (fst a)" "snd b = count_list ws (fst b)"
      using Counter_count [of "fst a" "snd a" ws] Counter_count [of "fst b" "snd b" ws] by auto
    with r show "ranks_before ws (fst a) (fst b)" by (auto simp: ranks_before_def)
  qed
  then show ?thesis by (simp add: sorted_wrt_map)
qed

lemma extract_keywords_eq:
  "extract_keywords a k = take k (map fst (sort_key (\<lambda>wc. - int (snd wc)) (Counter (filtered_tokens a))))"
  by (simp add: extract_keywords_def filtered_tokens_def most_common_def take_map)

lemma ranking_set: "set (map fst (sort_key (\<lambda>wc. - int (snd wc)) (Counter ws))) = set ws"
  using Counter_keys_set [of ws] by simp

lemma ranking_distinct: "distinct (map fst (sort_key (\<lambda>wc. - int (snd wc)) (Counter ws)))"
  using Counter_keys_distinct [of ws] by (simp add: distinct_map)

text \<open>
  C3: for every abstract and every \<open>k\<close> (the loader uses \<open>k = 10\<close>), the extractor returns
  tokens that survive the stopword and length filters, without repetition, as many as
  there are distinct surviving tokens but at most \<open>k\<close>; they stand in descending order of
  frequency, tokens of equal frequency in order of first occurrence; and every surviving
  token that is left out ranks behind every token returned.
\<close>

theorem extract_keywords_ranking:
  "length (extract_keywords a k) = min k (card (set (filtered_tokens a)))
   \<and> distinct (extract_keywords a k)
   \<and> set (extract_keywords a k) \<subseteq> set (filtered_tokens a)
   \<and> sorted_wrt (ranks_before (filtered_tokens a)) (extract_keywords a k)
   \<and> (\<forall>u\<in>set (extract_keywords a k). \<forall>w\<in>set (filtered_tokens a) - set (extract_keywords a k).
        ranks_before (filtered_tokens a) u w)"
proof -
  let ?ws = "filtered_tokens a"
  let ?R = "map fst (sort_key (\<lambda>wc. - int (snd wc)) (Counter ?ws))"
  have ks: "extract_keywords a k = take k ?R" by (rule extract_keywords_eq)
  have d: "distinct ?R" by (rule ranking_distinct)
  have s: "set ?R = set ?ws" by (rule ranking_set)
  have srt: "sorted_wrt (ranks_before ?ws) ?R" by (rule ranking_sorted)
  have len: "length ?R = card (set ?ws)"
    using distinct_card [OF d] s by simp
  have 1: "length (take k ?R) = min k (card (set ?ws))" using len by simp
  have 2: "distinct (take k ?R)" using d by (rule distinct_take)
  have 3: "set (take k ?R) \<subseteq> set ?ws" using s set_take_subset [of k ?R] by simp
  have 4: "sorted_wrt (ranks_before ?ws) (take k ?R)" using srt by (rule sorted_wrt_take)
  have split: "sorted_wrt (ranks_before ?ws) (take k ?R @ drop k ?R)" using srt by simp
  have 5: "\<forall>u\<in>set (take k ?R). \<forall>w\<in>set ?ws - set (take k ?R). ranks_before ?ws u w"
  proof (intro ballI)
    fix u w assume u: "u \<in> set (take k ?R)" and w: "w \<in> set ?ws - set (take k ?R)"
    have "set ?R = set (take k ?R) \<union> set (drop k ?R)"
      by (metis append_take_drop_id set_append)
    with w s have "w \<in> set (drop k ?R)" by blast
    with u split show "ranks_before ?ws u w" unfolding sorted_wrt_append by blast
  qed
  show ?thesis unfolding ks using 1 2 3 4 5 by blast
qed

text \<open>The ranking theorem at the example abstract, for the top two keywords.\<close>

theorem extract_keywords_ranking_witness:
  "extract_keywords example_abstract 2 = [''graph'', ''networks'']
   \<and> length (extract_keywords example_abstract 2)
       = min 2 (card (set (filtered_tokens example_abstract)))
   \<and> ranks_before (filtered_tokens example_abstract) ''graph'' ''networks''
   \<and> ranks_before (filtered_tokens example_abstract) ''networks'' ''traffic''"
proof -
  have k: "extract_keywords example_abstract 2 = [''graph'', ''networks'']"
    by code_simp
  have t: "''traffic'' \<in> set (filtered_tokens example_abstract) - {''graph'', ''networks''}"
    by code_simp
  show ?thesis
    using extract_keywords_ranking [of example_abstract 2] t unfolding k by simp
qed

lemma put_all_Nil: "put_all tbl [] = tbl"
  by (simp add: put_all_def)

lemma put_all_Cons: "put_all tbl (it # its) = put_all (table_put it tbl) its"
  by (simp add: put_all_def)

lemma put_all_append: "put_all tbl (xs @ ys) = put_all (put_all tbl xs) ys"
  by (simp add: put_all_def)

lemma foldl_put_category:
  "foldl (put_category i d c) st cats =
     st\<lparr>table := put_all (table st) (map (cat_item i d c) cats),
        requests := requests st @ map (cat_item i d c) cats,
        category_items := category_items st + length cats\<rparr>"
  by (induction cats arbitrary: st) (simp_all add: put_category_def put_item_def put_all_Nil put_all_Cons)

lemma foldl_put_author:
  "foldl (put_author i d c) st as =
     st\<lparr>table := put_all (table st) (map (a_item i d c) as),
        requests := requests st @ map (a_item i d c) as,
        author_items := author_items st + length as\<rparr>"
  by (induction as arbitrary: st) (simp_all add: put_author_def put_item_def put_all_Nil put_all_Cons)

lemma foldl_put_keyword:
  "foldl (put_keyword i d c) st ks =
     st\<lparr>table := put_all (table st) (map (k_item i d c) ks),
        requests := requests st @ map (k_item i d c) ks,
        keyword_items := keyword_items st + length ks\<rparr>"
  by (induction ks arbitrary: st) (simp_all add: put_keyword_def put_item_def put_all_Nil put_all_Cons)

lemma load_paper_skip: "\<not> accepted p \<Longrightarrow> load_paper P st p = st"
  by (auto simp: load_paper_def accepted_def paper_id_def paper_published_def Let_def)

lemma load_paper_accepted:
  "accepted p \<Longrightarrow> load_paper P st p =
     st\<lparr>table := put_all (table st) (written P p),
        requests := requests st @ written P p,
        paper_id_items := paper_id_items st + 1,
        category_items := category_items st + length (or_empty (raw_categories p)),
        author_items := author_items st + length (or_empty (raw_authors p)),
        keyword_items := keyword_items st + length (extract_keywords (safe_str (raw_abstract p)) 10),
        total_papers := total_papers st + 1\<rparr>"
  by (simp add: load_paper_def accepted_def paper_id_def paper_published_def Let_def
      foldl_put_category foldl_put_author foldl_put_keyword put_item_def written_def
      paper_core_def paper_date_def put_all_Cons put_all_append)

section \<open>Tables and puts\<close>

lemma table_put_keys:
  "map key_of (table_put it tbl) =
     (if key_of it \<in> key_of ` set tbl then map key_of tbl else map key_of tbl @ [key_of it])"
  by (induction tbl) auto

lemma table_put_keys_set: "key_of ` set (table_put it tbl) = insert (key_of it) (key_of ` set tbl)"
  by (induction tbl) auto

lemma table_map_put_apply:
  "table_map (table_put it tbl) k = (if k = key_of it then Some it else table_map tbl k)"
  unfolding table_map_def by (induction tbl) auto

lemma put_all_keys_set:
  "key_of ` set (put_all tbl ws) = key_of ` set tbl \<union> key_of ` set ws"
  by (induction ws arbitrary: tbl) (simp_all add: put_all_Nil put_all_Cons table_put_keys_set)

lemma put_all_keys_same:
  "key_of ` set ws \<subseteq> key_of ` set tbl \<Longrightarrow> map key_of (put_all tbl ws) = map key_of tbl"
proof (induction ws arbitrary: tbl)
  case Nil
  then show ?case by (simp add: put_all_Nil)
next
  case (Cons w ws)
  have "map key_of (table_put w tbl) = map key_of tbl"
    using Cons.prems by (simp add: table_put_keys)
  moreover have "key_of ` set ws \<subseteq> key_of ` set (table_put w tbl)"
    using Cons.prems by (auto simp: table_put_keys_set)
  ultimately show ?case using Cons.IH [of "table_put w tbl"] by (simp add: put_all_Cons)
qed

lemma put_all_keys_idem:
  "map key_of (put_all (put_all tbl ws) ws) = map key_of (put_all tbl ws)"
  by (rule put_all_keys_same) (simp add: put_all_keys_set)

lemma writes_map_snoc: "writes_map (ws @ [it]) = (writes_map ws)(key_of it \<mapsto> it)"
  by (simp add: writes_map_def)

lemma table_map_put_all: "table_map (put_all tbl ws) = table_map tbl ++ writes_map ws"
proof (induction ws rule: rev_induct)
  case Nil
  then show ?case by (simp add: put_all_Nil writes_map_def)
next
  case (snoc it ws)
  show ?case
  proof (rule ext)
    fix k
    show "table_map (put_all tbl (ws @ [it])) k = (table_map tbl ++ writes_map (ws @ [it])) k"
      using snoc [THEN fun_cong, of k]
      by (simp add: put_all_append put_all_Cons put_all_Nil table_map_put_apply writes_map_snoc
          map_add_def)
  qed
qed

lemma map_add_twice: "(m ++ n) ++ n = m ++ (n :: 'a \<rightharpoonup> 'b)"
  by (rule ext) (simp add: map_add_def split: option.split)

lemma table_map_put_all_idem:
  "table_map (put_all (put_all tbl ws) ws) = table_map (put_all tbl ws)"
  by (simp add: table_map_put_all map_add_twice)

lemma main_load_fold:
  "table (foldl (load_paper P) st ps) = put_all (table st) (concat (map (written P) ps))
   \<and> requests (foldl (load_paper P) st ps) = requests st @ concat (map (written P) ps)"
proof (induction ps arbitrary: st)
  case Nil
  then show ?case by (simp add: put_all_Nil)
next
  case (Cons p ps)
  show ?case
  proof (cases "accepted p")
    case True
    then show ?thesis using Cons [of "load_paper P st p"]
      by (simp add: load_paper_accepted put_all_append)
  next
    case False
    then show ?thesis using Cons [of st]
      by (simp add: load_paper_skip written_def put_all_Nil)
  qed
qed

lemma main_load_table: "table (main_load P ps tbl) = put_all tbl (concat (map (written P) ps))"
  by (simp add: main_load_def main_load_fold)

lemma main_load_requests: "requests (main_load P ps tbl) = concat (map (written P) ps)"
  by (simp add: main_load_def main_load_fold)

text \<open>Two runs of the loader, one after the other, leave the table of one run over both
  lists.\<close>

lemma main_load_runs:
  "table (main_load P ps2 (table (main_load P ps1 tbl))) = table (main_load P (ps1 @ ps2) tbl)"
  by (simp add: main_load_table put_all_append)

section \<open>Reloading\<close>

text \<open>
  C2: loading a record into the table that a first load of the same record has produced
  leaves the table, read as a map from (partition key, sort key) to items, as it was, and
  the number of stored items as it was. The same holds for any list of records loaded
  twice.
\<close>

theorem reload_idempotent:
  "table_map (table (main_load P [p] (table (main_load P [p] tbl))))
     = table_map (table (main_load P [p] tbl))
   \<and> length (table (main_load P [p] (table (main_load P [p] tbl))))
     = length (table (main_load P [p] tbl))
   \<and> table_map (table (main_load P ps (table (main_load P ps tbl))))
     = table_map (table (main_load P ps tbl))
   \<and> length (table (main_load P ps (table (main_load P ps tbl))))
     = length (table (main_load P ps tbl))"
proof -
  have len: "length (put_all (put_all t ws) ws) = length (put_all t ws)" for t ws
    using put_all_keys_idem [of t ws] by (metis length_map)
  show ?thesis
    by (simp add: main_load_table table_map_put_all_idem len)
qed

lemma writes_map_last:
  "it \<in> set ws \<Longrightarrow> \<forall>x\<in>set ws. key_of x = key_of it \<longrightarrow> x = it
     \<Longrightarrow> writes_map ws (key_of it) = Some it"
proof (induction ws rule: rev_induct)
  case Nil
  then show ?case by simp
next
  case (snoc x ws)
  then show ?case by (auto simp: writes_map_snoc)
qed

lemma table_map_SomeD: "table_map tbl k = Some it \<Longrightarrow> it \<in> set tbl \<and> key_of it = k"
  unfolding table_map_def by (auto dest!: map_of_SomeD)

lemma put_all_member:
  "it \<in> set ws \<Longrightarrow> \<forall>x\<in>set ws. key_of x = key_of it \<longrightarrow> x = it \<Longrightarrow> it \<in> set (put_all tbl ws)"
  using table_map_SomeD [of "put_all tbl ws" "key_of it" it] writes_map_last [of it ws]
  by (simp add: table_map_put_all)

section \<open>Skipped records\<close>

text \<open>
  C6: a record whose identifier, title or timestamp is absent or empty after alias probing
  leaves the whole loader state as it is (no put, no counter changed), and the loop goes
  on: a run over a list with such a record in it ends in the same state as the run over
  the list without it.
\<close>

theorem invalid_record_skipped:
  assumes "safe_str (py_or (raw_arxiv_id p) (raw_id p)) = []
           \<or> safe_str (raw_title p) = []
           \<or> safe_str (py_or (py_or (raw_published p) (raw_updated p)) (raw_date p)) = []"
  shows "load_paper P st p = st
     \<and> main_load P (before @ p # after) tbl = main_load P (before @ after) tbl"
proof -
  have "\<not> accepted p"
    using assms by (auto simp: accepted_def paper_id_def paper_published_def)
  then have "load_paper P st p = st" for st by (rule load_paper_skip)
  then show ?thesis by (simp add: main_load_def)
qed

text \<open>A record with an empty title between two accepted records.\<close>

theorem invalid_record_skipped_witness:
  "(safe_str (py_or (raw_arxiv_id untitled_paper) (raw_id untitled_paper)) = []
    \<or> safe_str (raw_title untitled_paper) = []
    \<or> safe_str (py_or (py_or (raw_published untitled_paper) (raw_updated untitled_paper))
         (raw_date untitled_paper)) = [])
   \<and> load_paper fromisoformat_ext empty_loader untitled_paper = empty_loader
   \<and> main_load fromisoformat_ext ([example_paper] @ untitled_paper # [duplicate_author_paper]) []
     = main_load fromisoformat_ext ([example_paper] @ [duplicate_author_paper]) []
   \<and> total_papers (main_load fromisoformat_ext [example_paper, untitled_paper, duplicate_author_paper] []) = 2"
proof -
  have a: "safe_str (py_or (raw_arxiv_id untitled_paper) (raw_id untitled_paper)) = []
    \<or> safe_str (raw_title untitled_paper) = []
    \<or> safe_str (py_or (py_or (raw_published untitled_paper) (raw_updated untitled_paper))
         (raw_date untitled_paper)) = []"
    by (simp add: untitled_paper_def safe_str_def)
  have t: "total_papers (main_load fromisoformat_ext [example_paper, duplicate_author_paper] []) = 2"
    by code_simp
  show ?thesis
    using invalid_record_skipped [OF a, of fromisoformat_ext empty_loader "[example_paper]"
        "[duplicate_author_paper]" "[]"] a t
    by simp
qed

section \<open>Keyword extraction on the example\<close>

text \<open>
  C4, as stated: on the example abstract the extractor returns
  \<open>[graph, traffic, networks, neural, prediction]\<close>. It does not: \<open>traffic\<close> and
  \<open>networks\<close> both occur twice, and \<open>networks\<close> occurs first.
\<close>

theorem example_keywords_counterexample:
  "extract_keywords example_abstract 10
     \<noteq> [''graph'', ''traffic'', ''networks'', ''neural'', ''prediction'']"
  by code_simp

text \<open>
  C4, amended: on the example abstract the surviving tokens have the frequencies
  graph 3, neural 1, networks 2, traffic 2, prediction 1 (in order of first occurrence),
  and the extractor returns \<open>[graph, networks, traffic, neural, prediction]\<close>: descending
  frequency, the tie between \<open>networks\<close> and \<open>traffic\<close> and the tie between \<open>neural\<close> and
  \<open>prediction\<close> broken by first occurrence.
\<close>

theorem example_keywords:
  "Counter (filtered_tokens example_abstract)
     = [(''graph'', 3), (''neural'', 1), (''networks'', 2), (''traffic'', 2), (''prediction'', 1)]
   \<and> extract_keywords example_abstract 10
     = [''graph'', ''networks'', ''traffic'', ''neural'', ''prediction'']"
  by code_simp

section \<open>The payload of the stored items\<close>

lemma written_key_inj:
  "x \<in> set (written P p) \<Longrightarrow> y \<in> set (written P p) \<Longrightarrow> key_of x = key_of y \<Longrightarrow> x = y"
  by (auto simp: written_def key_of_def paper_item_def cat_item_def a_item_def k_item_def
      split: if_splits)

lemma written_in_table:
  "it \<in> set (written P p) \<Longrightarrow> it \<in> set (table (main_load P [p] tbl))"
  using put_all_member [of it "written P p" tbl] written_key_inj [of _ P p it]
  by (auto simp: main_load_table)

lemma written_payload:
  "it \<in> set (written P p) \<Longrightarrow> payload it = paper_core p"
  by (auto simp: written_def paper_item_def cat_item_def a_item_def k_item_def split: if_splits)

lemma written_keys:
  "it \<in> set (written P p) \<Longrightarrow>
     (PK it = ''PAPER#'' @ paper_id p \<and> SK it = ''A'' \<and> GSI2SK it = Some (paper_date P p))
     \<or> (SK it = paper_date P p @ ''#'' @ paper_id p \<and> GSI2SK it = None)"
  by (auto simp: written_def paper_item_def cat_item_def a_item_def k_item_def split: if_splits)

text \<open>
  C9, amended: every item put for a record is stored in the table and carries in its
  payload field \<open>published\<close> the source timestamp string as it was read (the first
  non-empty one of \<open>published\<close>, \<open>updated\<close>, \<open>date\<close>), not its normalization. The
  normalized calendar date appears in the keys only: as secondary sort key of the
  \<open>PAPER#\<close> item and as the date part \<open><date>#<id>\<close> of the sort key of every other item.
\<close>

theorem payload_published_is_source_timestamp:
  assumes "it \<in> set (requests (main_load P [p] tbl))"
  shows "it \<in> set (table (main_load P [p] tbl))
     \<and> published (payload it)
         = safe_str (py_or (py_or (raw_published p) (raw_updated p)) (raw_date p))
     \<and> ((PK it = ''PAPER#'' @ arxiv_id (payload it) \<and> SK it = ''A''
          \<and> GSI2SK it = Some (iso_to_date P (published (payload it))))
        \<or> (SK it = iso_to_date P (published (payload it)) @ ''#'' @ arxiv_id (payload it)
          \<and> GSI2SK it = None))"
proof -
  have w: "it \<in> set (written P p)" using assms by (simp add: main_load_requests)
  have c: "payload it = paper_core p" using w by (rule written_payload)
  show ?thesis
    using written_in_table [OF w, of tbl] written_keys [OF w]
    by (simp add: c paper_core_def paper_published_def paper_date_def)
qed

text \<open>
  C9, as stated: the payload of every stored item holds the normalized calendar date and
  not the raw source timestamp. On the example record all nine stored items hold the raw
  timestamp \<open>2023-01-15T10:30:00Z\<close>, whose normalization is \<open>2023-01-15\<close>.
\<close>

theorem payload_published_counterexample:
  "map (published \<circ> payload) (table (main_load fromisoformat_ext [example_paper] []))
     = replicate 9 ''2023-01-15T10:30:00Z''
   \<and> iso_to_date fromisoformat_ext ''2023-01-15T10:30:00Z'' = ''2023-01-15''
   \<and> ''2023-01-15T10:30:00Z'' \<noteq> ''2023-01-15''"
  by code_simp

text \<open>The amended statement at the \<open>PAPER#\<close> item of the example record.\<close>

theorem payload_published_is_source_timestamp_witness:
  "paper_item ''2301.00001'' ''2023-01-15'' (paper_core example_paper)
     \<in> set (requests (main_load fromisoformat_ext [example_paper] []))
   \<and> paper_item ''2301.00001'' ''2023-01-15'' (paper_core example_paper)
     \<in> set (table (main_load fromisoformat_ext [example_paper] []))
   \<and> published (payload (paper_item ''2301.00001'' ''2023-01-15'' (paper_core example_paper)))
       = ''2023-01-15T10:30:00Z''"
proof -
  have a: "accepted example_paper" by code_simp
  have i: "paper_id example_paper = ''2301.00001''" by code_simp
  have d: "paper_date fromisoformat_ext example_paper = ''2023-01-15''" by code_simp
  have r: "paper_item ''2301.00001'' ''2023-01-15'' (paper_core example_paper)
     \<in> set (requests (main_load fromisoformat_ext [example_paper] []))"
    by (simp add: main_load_requests written_def a i d)
  have e: "safe_str (py_or (py_or (raw_published example_paper) (raw_updated example_paper))
             (raw_date example_paper)) = ''2023-01-15T10:30:00Z''"
    by code_simp
  show ?thesis
    using payload_published_is_source_timestamp [OF r] r unfolding e by simp
qed

section \<open>Date normalization\<close>


















section \<open>Keywords are lower-case, distinct and found by the keyword query\<close>

lemma lower_char_idem: "lower_char (lower_char c) = lower_char c"
proof -
  have "of_char (char_of (of_char c + 32 :: nat)) = (of_char c + 32 :: nat)"
    if "(of_char c :: nat) \<le> 222"
    using that by simp
  then show ?thesis
    by (auto simp: lower_char_def Let_def)
qed

lemma lower_idem: "lower (lower s) = lower s"
  by (simp add: lower_def lower_char_idem)

lemma tokenize_lower: "t \<in> set (tokenize a) \<Longrightarrow> lower t = t"
  by (auto simp: tokenize_def lower_idem)

lemma extract_keywords_subset: "set (extract_keywords a n) \<subseteq> set (filtered_tokens a)"
  using ranking_set [of "filtered_tokens a"] set_take_subset
  unfolding extract_keywords_eq by fastforce

lemma extract_keywords_distinct: "distinct (extract_keywords a n)"
  unfolding extract_keywords_eq using ranking_distinct by (rule distinct_take)

lemma keyword_props:
  "k \<in> set (extract_keywords a n) \<Longrightarrow> lower k = k \<and> 3 \<le> length k \<and> k \<notin> set STOPWORDS"
  using extract_keywords_subset [of a n] tokenize_lower [of k a]
  by (auto simp: filtered_tokens_def)

lemma query_index_set:
  "set (query_index ipk isk tbl pk) = {it \<in> set tbl. ipk it = Some pk \<and> isk it \<noteq> None}"
  by (auto simp: query_index_def)

lemma query_index_length: "length (query_index ipk isk tbl pk) \<le> length tbl"
  by (simp add: query_index_def)

lemma k_item_in_keyword_query:
  assumes acc: "accepted p"
    and k: "k \<in> set (extract_keywords (safe_str (raw_abstract p)) 10)"
    and q: "lower q = k"
  shows "k_item (paper_id p) (paper_date P p) (paper_core p) k
           \<in> set (results (query_papers_by_keyword (table (main_load P [p] tbl)) q
                             (length (table (main_load P [p] tbl)))))"
proof -
  let ?T = "table (main_load P [p] tbl)"
  let ?it = "k_item (paper_id p) (paper_date P p) (paper_core p) k"
  have "?it \<in> set (written P p)"
    using acc k by (simp add: written_def paper_core_def)
  then have "?it \<in> set ?T" by (rule written_in_table)
  then have "?it \<in> set (query_index GSI3PK GSI3SK ?T (''KEYWORD#'' @ lower q))"
    using q by (simp add: query_index_set k_item_def)
  moreover have "length (query_index GSI3PK GSI3SK ?T (''KEYWORD#'' @ lower q)) \<le> length ?T"
    by (rule query_index_length)
  ultimately show ?thesis
    by (simp add: query_papers_by_keyword_def)
qed

text \<open>
  C10: the keywords extracted from an abstract are pairwise distinct; each is unchanged by
  \<open>lower\<close>, has at least three characters and is no stopword. So the \<open>KEYWORD#\<close> items of
  one paper have pairwise distinct partition keys whose keyword part is lower-case, and
  the key that \<open>query_papers_by_keyword\<close> builds from any spelling \<open>q\<close> with
  \<open>lower q = k\<close> is the stored partition key and index key of the item of \<open>k\<close>: after a
  record has been loaded, the query for such a \<open>q\<close> (with a limit that does not cut the
  partition) returns the record's item of \<open>k\<close>.
\<close>

theorem keywords_distinct_lowercase:
  "distinct (extract_keywords a n)
   \<and> (\<forall>k\<in>set (extract_keywords a n). lower k = k \<and> 3 \<le> length k \<and> k \<notin> set STOPWORDS)
   \<and> distinct (map (\<lambda>k. PK (k_item i d c k)) (extract_keywords a n))
   \<and> (\<forall>k\<in>set (extract_keywords a n).
        lower (PK (k_item i d c k)) = ''keyword#'' @ k
        \<and> (\<forall>q. lower q = k \<longrightarrow>
              GSI3PK (k_item i d c k) = Some (''KEYWORD#'' @ lower q)
              \<and> PK (k_item i d c k) = ''KEYWORD#'' @ lower q))
   \<and> (accepted p \<longrightarrow>
        (\<forall>k\<in>set (extract_keywords (safe_str (raw_abstract p)) 10). \<forall>q. lower q = k \<longrightarrow>
           k_item (paper_id p) (paper_date P p) (paper_core p) k
             \<in> set (results (query_papers_by_keyword (table (main_load P [p] tbl)) q
                               (length (table (main_load P [p] tbl)))))))"
proof -
  have 1: "distinct (extract_keywords a n)" by (rule extract_keywords_distinct)
  have 2: "\<forall>k\<in>set (extract_keywords a n). lower k = k \<and> 3 \<le> length k \<and> k \<notin> set STOPWORDS"
    using keyword_props by blast
  have 3: "distinct (map (\<lambda>k. PK (k_item i d c k)) (extract_keywords a n))"
    using 1 by (simp add: distinct_map k_item_def inj_on_def)
  have pre: "lower ''KEYWORD#'' = ''keyword#''" by code_simp
  have 4: "\<forall>k\<in>set (extract_keywords a n).
        lower (PK (k_item i d c k)) = ''keyword#'' @ k
        \<and> (\<forall>q. lower q = k \<longrightarrow>
              GSI3PK (k_item i d c k) = Some (''KEYWORD#'' @ lower q)
              \<and> PK (k_item i d c k) = ''KEYWORD#'' @ lower q)"
  proof
    fix k assume "k \<in> set (extract_keywords a n)"
    then have "lower k = k" using 2 by blast
    moreover have "lower (''KEYWORD#'' @ k) = lower ''KEYWORD#'' @ lower k"
      by (simp add: lower_def)
    ultimately show "lower (PK (k_item i d c k)) = ''keyword#'' @ k
        \<and> (\<forall>q. lower q = k \<longrightarrow>
              GSI3PK (k_item i d c k) = Some (''KEYWORD#'' @ lower q)
              \<and> PK (k_item i d c k) = ''KEYWORD#'' @ lower q)"
      using pre by (simp add: k_item_def)
  qed
  have 5: "accepted p \<longrightarrow>
        (\<forall>k\<in>set (extract_keywords (safe_str (raw_abstract p)) 10). \<forall>q. lower q = k \<longrightarrow>
           k_item (paper_id p) (paper_date P p) (paper_core p) k
             \<in> set (results (query_papers_by_keyword (table (main_load P [p] tbl)) q
                               (length (table (main_load P [p] tbl))))))"
    using k_item_in_keyword_query by blast
  show ?thesis using 1 2 3 4 5 by blast
qed

text \<open>The keyword \<open>traffic\<close> of the example record, queried as \<open>Traffic\<close>.\<close>

theorem keywords_distinct_lowercase_witness:
  "accepted example_paper
   \<and> ''traffic'' \<in> set (extract_keywords (safe_str (raw_abstract example_paper)) 10)
   \<and> lower ''Traffic'' = ''traffic''
   \<and> 3 \<le> length ''traffic''
   \<and> ''traffic'' \<notin> set STOPWORDS
   \<and> k_item (paper_id example_paper) (paper_date fromisoformat_ext example_paper)
         (paper_core example_paper) ''traffic''
       \<in> set (results (query_papers_by_keyword
                 (table (main_load fromisoformat_ext [example_paper] [])) ''Traffic''
                 (length (table (main_load fromisoformat_ext [example_paper] [])))))"
proof -
  have a: "accepted example_paper" by code_simp
  have k: "''traffic'' \<in> set (extract_keywords (safe_str (raw_abstract example_paper)) 10)"
    by code_simp
  have l: "lower ''Traffic'' = ''traffic''" by code_simp
  show ?thesis
    using keywords_distinct_lowercase [of "safe_str (raw_abstract example_paper)" 10
        "paper_id example_paper" "paper_date fromisoformat_ext example_paper"
        "paper_core example_paper" example_paper fromisoformat_ext "[]"] a k l
    by blast
qed

section \<open>The date range query\<close>

lemma lex_lower_bound:
  "length s = length d \<Longrightarrow> (s @ ''#'' \<le> d @ CHR ''#'' # i) \<longleftrightarrow> s \<le> d"
  for s d i :: string
  by (induction s d rule: list_induct2) auto

lemma lex_upper_bound:
  "length e = length d \<Longrightarrow>
     (d @ CHR ''#'' # i \<le> e @ ''#zzzzzzz'') \<longleftrightarrow> (d < e \<or> (d = e \<and> i \<le> ''zzzzzzz''))"
  for e d i :: string
  by (induction e d rule: list_induct2) auto

lemma query_between_set:
  "set (query_between tbl pk lo hi) = {it \<in> set tbl. PK it = pk \<and> lo \<le> SK it \<and> SK it \<le> hi}"
  by (auto simp: query_between_def)

lemma query_between_sorted: "sorted (map SK (query_between tbl pk lo hi))"
  by (simp add: query_between_def)

text \<open>
  C7, amended: \<open>query_papers_in_date_range\<close> returns, in ascending order of the sort key,
  exactly the items of the partition \<open>CATEGORY#<category>\<close> whose sort key lies in
  \<open>[start#, end#zzzzzzz]\<close>, so no item of another category. For an item with sort key
  \<open><date>#<id>\<close> where \<open>start\<close>, \<open>end\<close> and the date have the same length (as dates
  \<open>YYYY-MM-DD\<close> have) and the identifier does not sort behind \<open>zzzzzzz\<close>, that is the
  case exactly when \<open>start \<le> date \<le> end\<close>.
\<close>

theorem date_range_query:
  assumes "SK it = d @ ''#'' @ i"
    and "length start_date = length d" and "length end_date = length d"
    and "i \<le> ''zzzzzzz''"
  shows "(it \<in> set (results (query_papers_in_date_range tbl category start_date end_date))
            \<longleftrightarrow> it \<in> set tbl \<and> PK it = ''CATEGORY#'' @ category
                \<and> start_date \<le> d \<and> d \<le> end_date)
     \<and> set (results (query_papers_in_date_range tbl category start_date end_date))
         = {x \<in> set tbl. PK x = ''CATEGORY#'' @ category
              \<and> start_date @ ''#'' \<le> SK x \<and> SK x \<le> end_date @ ''#zzzzzzz''}
     \<and> sorted (map SK (results (query_papers_in_date_range tbl category start_date end_date)))
     \<and> count (query_papers_in_date_range tbl category start_date end_date)
         = length (results (query_papers_in_date_range tbl category start_date end_date))"
proof -
  have lo: "(start_date @ ''#'' \<le> SK it) \<longleftrightarrow> start_date \<le> d"
    using assms(1,2) by (simp add: lex_lower_bound)
  have hi: "(SK it \<le> end_date @ ''#zzzzzzz'') \<longleftrightarrow> d \<le> end_date"
    using assms(1,3,4) by (auto simp: lex_upper_bound)
  show ?thesis
    using lo hi
    by (simp add: query_papers_in_date_range_def Let_def query_between_set query_between_sorted)
qed

text \<open>The category item of the example record in the range from 2023-01-01 to its own date.\<close>

theorem date_range_query_witness:
  "SK (cat_item ''2301.00001'' ''2023-01-15'' (paper_core example_paper) ''cs.LG'')
     = ''2023-01-15'' @ ''#'' @ ''2301.00001''
   \<and> length ''2023-01-01'' = length ''2023-01-15''
   \<and> length ''2023-01-15'' = length ''2023-01-15''
   \<and> ''2301.00001'' \<le> ''zzzzzzz''
   \<and> cat_item ''2301.00001'' ''2023-01-15'' (paper_core example_paper) ''cs.LG''
       \<in> set (results (query_papers_in_date_range
                 (table (main_load fromisoformat_ext [example_paper] []))
                 ''cs.LG'' ''2023-01-01'' ''2023-01-15''))"
proof -
  let ?it = "cat_item ''2301.00001'' ''2023-01-15'' (paper_core example_paper) ''cs.LG''"
  have a: "SK ?it = ''2023-01-15'' @ ''#'' @ ''2301.00001''" by (simp add: cat_item_def)
  have b: "length ''2023-01-01'' = length ''2023-01-15''" by simp
  have c: "length ''2023-01-15'' = length ''2023-01-15''" by simp
  have d: "''2301.00001'' \<le> ''zzzzzzz''" by code_simp
  have acc: "accepted example_paper" by code_simp
  have i: "paper_id example_paper = ''2301.00001''" by code_simp
  have dt: "paper_date fromisoformat_ext example_paper = ''2023-01-15''" by code_simp
  have cs: "categories (paper_core example_paper) = [''cs.LG'']" by code_simp
  have "?it \<in> set (written fromisoformat_ext example_paper)"
    by (simp add: written_def acc i dt cs)
  then have m: "?it \<in> set (table (main_load fromisoformat_ext [example_paper] []))"
    by (rule written_in_table)
  have p: "PK ?it = ''CATEGORY#'' @ ''cs.LG''" by (simp add: cat_item_def)
  have r: "''2023-01-01'' \<le> ''2023-01-15'' \<and> ''2023-01-15'' \<le> ''2023-01-15''" by code_simp
  show ?thesis
    using date_range_query [OF a b c d,
        of "table (main_load fromisoformat_ext [example_paper] [])" "''cs.LG''"] a b c d m p r
    by blast
qed

text \<open>
  C7, as stated: every item of the category whose date lies in \<open>[start, end]\<close> is returned,
  whatever its identifier. The stored category item of a record dated 2023-01-15 with the
  identifier \<open>zzzzzzzz\<close> is not returned for the range from 2023-01-15 to 2023-01-15: its
  sort key lies behind \<open>2023-01-15#zzzzzzz\<close>.
\<close>

theorem date_range_counterexample:
  "cat_item ''zzzzzzzz'' ''2023-01-15'' (paper_core late_id_paper) ''cs.LG''
     \<in> set (table (main_load fromisoformat_ext [late_id_paper] []))
   \<and> ''2023-01-15'' \<le> ''2023-01-15''
   \<and> results (query_papers_in_date_range (table (main_load fromisoformat_ext [late_id_paper] []))
        ''cs.LG'' ''2023-01-15'' ''2023-01-15'') = []"
  by code_simp

section \<open>Lookup by identifier\<close>

lemma table_put_subset: "set (table_put it tbl) \<subseteq> insert it (set tbl)"
  by (induction tbl) auto

lemma put_all_subset: "set (put_all tbl ws) \<subseteq> set tbl \<union> set ws"
proof (induction ws arbitrary: tbl)
  case Nil
  then show ?case by (simp add: put_all_Nil)
next
  case (Cons w ws)
  show ?case
    using Cons [of "table_put w tbl"] table_put_subset [of w tbl]
    by (auto simp: put_all_Cons)
qed

lemma table_put_distinct:
  "distinct (map key_of tbl) \<Longrightarrow> distinct (map key_of (table_put it tbl))"
  by (simp add: table_put_keys)

lemma put_all_distinct:
  "distinct (map key_of tbl) \<Longrightarrow> distinct (map key_of (put_all tbl ws))"
  by (induction ws arbitrary: tbl) (simp_all add: put_all_Nil put_all_Cons table_put_distinct)

lemma filter_key_length:
  "distinct (map f xs) \<Longrightarrow> length (filter (\<lambda>x. f x = k) xs) = (if k \<in> f ` set xs then 1 else 0)"
  by (induction xs) auto

lemma written_paper_key:
  "it \<in> set (written P p) \<Longrightarrow>
     ((GSI2PK it = Some (''PAPER#'' @ i) \<and> GSI2SK it \<noteq> None) \<longleftrightarrow> key_of it = (''PAPER#'' @ i, ''A''))
     \<and> (PK it = ''PAPER#'' @ i \<longleftrightarrow> key_of it = (''PAPER#'' @ i, ''A''))"
  by (auto simp: written_def key_of_def paper_item_def cat_item_def a_item_def k_item_def
      split: if_splits)

lemma written_has_paper_key:
  "(''PAPER#'' @ i, ''A'') \<in> key_of ` set (written P p) \<longleftrightarrow> accepted p \<and> paper_id p = i"
  by (auto simp: written_def key_of_def paper_item_def cat_item_def a_item_def k_item_def
      image_iff)

lemma loaded_table_facts:
  "distinct (map key_of (table (main_load P ps [])))
   \<and> set (table (main_load P ps [])) \<subseteq> (\<Union>p\<in>set ps. set (written P p))
   \<and> key_of ` set (table (main_load P ps [])) = (\<Union>p\<in>set ps. key_of ` set (written P p))"
  using put_all_distinct [of "[]" "concat (map (written P) ps)"]
    put_all_subset [of "[]" "concat (map (written P) ps)"]
    put_all_keys_set [of "[]" "concat (map (written P) ps)"]
  by (auto simp: main_load_table)

lemma loaded_paper_items:
  "length (filter (\<lambda>it. GSI2PK it = Some (''PAPER#'' @ i) \<and> GSI2SK it \<noteq> None)
             (table (main_load P ps [])))
     = (if \<exists>p\<in>set ps. accepted p \<and> paper_id p = i then 1 else 0)
   \<and> length (filter (\<lambda>it. PK it = ''PAPER#'' @ i) (table (main_load P ps [])))
     = (if \<exists>p\<in>set ps. accepted p \<and> paper_id p = i then 1 else 0)"
proof -
  let ?T = "table (main_load P ps [])"
  let ?k = "(''PAPER#'' @ i, ''A'')"
  have w: "\<forall>it\<in>set ?T. \<exists>p. it \<in> set (written P p)"
    using loaded_table_facts [of P ps] by blast
  have f1: "filter (\<lambda>it. GSI2PK it = Some (''PAPER#'' @ i) \<and> GSI2SK it \<noteq> None) ?T
      = filter (\<lambda>it. key_of it = ?k) ?T"
    by (rule filter_cong [OF refl]) (use w written_paper_key in blast)
  have f2: "filter (\<lambda>it. PK it = ''PAPER#'' @ i) ?T = filter (\<lambda>it. key_of it = ?k) ?T"
    by (rule filter_cong [OF refl]) (use w written_paper_key in blast)
  have d: "distinct (map key_of ?T)" using loaded_table_facts [of P ps] by blast
  have m: "?k \<in> key_of ` set ?T \<longleftrightarrow> (\<exists>p\<in>set ps. accepted p \<and> paper_id p = i)"
    using loaded_table_facts [of P ps] written_has_paper_key [of i P] by auto
  show ?thesis
    unfolding f1 f2 using filter_key_length [OF d, of ?k] m by simp
qed

lemma get_paper_by_id_results:
  "results (get_paper_by_id tbl i)
     = take 1 (query_index GSI2PK GSI2SK tbl (''PAPER#'' @ i))
   \<and> count (get_paper_by_id tbl i) = length (results (get_paper_by_id tbl i))"
  by (simp add: get_paper_by_id_def Let_def split: list.split)

text \<open>
  C8: on every table \<open>get_paper_by_id\<close> returns at most one item, all of whose results carry
  the index partition key \<open>PAPER#<id>\<close>, with \<open>count\<close> the number of results; when no
  item of the table has that index key the result list is empty and the count is 0. In a
  table built by loading records into the empty table (in one run or several), there is
  exactly one item with partition key \<open>PAPER#<id>\<close> when an accepted record has that
  identifier and none otherwise, and the lookup returns exactly one item in the first
  case and none in the second.
\<close>

theorem get_paper_by_id_outcome:
  "length (results (get_paper_by_id tbl i)) \<le> 1
   \<and> count (get_paper_by_id tbl i) = length (results (get_paper_by_id tbl i))
   \<and> set (results (get_paper_by_id tbl i)) \<subseteq> {it \<in> set tbl. GSI2PK it = Some (''PAPER#'' @ i)}
   \<and> ((\<forall>it\<in>set tbl. GSI2PK it \<noteq> Some (''PAPER#'' @ i)) \<longrightarrow>
        results (get_paper_by_id tbl i) = [] \<and> count (get_paper_by_id tbl i) = 0)
   \<and> length (filter (\<lambda>it. PK it = ''PAPER#'' @ i) (table (main_load P ps [])))
       = (if \<exists>p\<in>set ps. accepted p \<and> paper_id p = i then 1 else 0)
   \<and> length (results (get_paper_by_id (table (main_load P ps [])) i))
       = (if \<exists>p\<in>set ps. accepted p \<and> paper_id p = i then 1 else 0)
   \<and> count (get_paper_by_id (table (main_load P ps [])) i)
       = (if \<exists>p\<in>set ps. accepted p \<and> paper_id p = i then 1 else 0)"
proof -
  have r: "results (get_paper_by_id t i) = take 1 (query_index GSI2PK GSI2SK t (''PAPER#'' @ i))"
    and c: "count (get_paper_by_id t i) = length (results (get_paper_by_id t i))" for t
    using get_paper_by_id_results [of t i] by blast+
  have 1: "length (results (get_paper_by_id tbl i)) \<le> 1" by (simp add: r)
  have 3: "set (results (get_paper_by_id tbl i)) \<subseteq> {it \<in> set tbl. GSI2PK it = Some (''PAPER#'' @ i)}"
    using set_take_subset [of 1 "query_index GSI2PK GSI2SK tbl (''PAPER#'' @ i)"]
    by (auto simp: r query_index_set)
  have 4: "(\<forall>it\<in>set tbl. GSI2PK it \<noteq> Some (''PAPER#'' @ i)) \<longrightarrow>
        results (get_paper_by_id tbl i) = [] \<and> count (get_paper_by_id tbl i) = 0"
  proof
    assume h: "\<forall>it\<in>set tbl. GSI2PK it \<noteq> Some (''PAPER#'' @ i)"
    have "filter (\<lambda>it. GSI2PK it = Some (''PAPER#'' @ i) \<and> GSI2SK it \<noteq> None) tbl = []"
      unfolding filter_empty_conv using h by blast
    then have "query_index GSI2PK GSI2SK tbl (''PAPER#'' @ i) = []"
      unfolding query_index_def by simp
    then show "results (get_paper_by_id tbl i) = [] \<and> count (get_paper_by_id tbl i) = 0"
      by (simp add: r c)
  qed
  let ?T = "table (main_load P ps [])"
  have "length (query_index GSI2PK GSI2SK ?T (''PAPER#'' @ i))
      = (if \<exists>p\<in>set ps. accepted p \<and> paper_id p = i then 1 else 0)"
    using loaded_paper_items [of i P ps] by (simp add: query_index_def)
  then have 6: "length (results (get_paper_by_id ?T i))
      = (if \<exists>p\<in>set ps. accepted p \<and> paper_id p = i then 1 else 0)"
    by (simp add: r)
  show ?thesis
    using 1 c [of tbl] 3 4 loaded_paper_items [of i P ps] 6 c [of ?T] by simp
qed

text \<open>A known and an unknown identifier after loading two records.\<close>

theorem get_paper_by_id_outcome_witness:
  "(\<exists>p\<in>set [example_paper, duplicate_author_paper]. accepted p \<and> paper_id p = ''2301.00001'')
   \<and> \<not> (\<exists>p\<in>set [example_paper, duplicate_author_paper]. accepted p \<and> paper_id p = ''9999.99999'')
   \<and> count (get_paper_by_id
        (table (main_load fromisoformat_ext [example_paper, duplicate_author_paper] []))
        ''2301.00001'') = 1
   \<and> count (get_paper_by_id
        (table (main_load fromisoformat_ext [example_paper, duplicate_author_paper] []))
        ''9999.99999'') = 0"
proof -
  have a: "\<exists>p\<in>set [example_paper, duplicate_author_paper]. accepted p \<and> paper_id p = ''2301.00001''"
    by code_simp
  have b: "\<not> (\<exists>p\<in>set [example_paper, duplicate_author_paper].
      accepted p \<and> paper_id p = ''9999.99999'')"
    by code_simp
  show ?thesis
    using get_paper_by_id_outcome [of "[]" "''2301.00001''" fromisoformat_ext
        "[example_paper, duplicate_author_paper]"]
      get_paper_by_id_outcome [of "[]" "''9999.99999''" fromisoformat_ext
        "[example_paper, duplicate_author_paper]"] a b
    by simp
qed

section \<open>Puts and stored items of one record\<close>

text \<open>The number of different items among those put for a record, and the length of a
  table after puts under keys that it does not hold.\<close>

lemma written_card:
  assumes "accepted p"
  shows "card (set (written P p)) =
           1 + card (set (or_empty (raw_categories p))) + card (set (or_empty (raw_authors p)))
           + length (extract_keywords (safe_str (raw_abstract p)) 10)"
proof -
  define ws where "ws =
     paper_item (paper_id p) (paper_date P p) (paper_core p)
     # map (cat_item (paper_id p) (paper_date P p) (paper_core p)) (remdups (or_empty (raw_categories p)))
     @ map (a_item (paper_id p) (paper_date P p) (paper_core p)) (remdups (or_empty (raw_authors p)))
     @ map (k_item (paper_id p) (paper_date P p) (paper_core p))
         (extract_keywords (safe_str (raw_abstract p)) 10)"
  have d: "distinct ws"
    unfolding ws_def
    by (auto simp: distinct_map inj_on_def extract_keywords_distinct paper_item_def cat_item_def
        a_item_def k_item_def)
  have s: "set ws = set (written P p)"
    using assms by (simp add: ws_def written_def paper_core_def)
  have "card (set (written P p)) = length ws"
    using distinct_card [OF d] s by simp
  then show ?thesis
    by (simp add: ws_def length_remdups_card_conv)
qed

lemma put_all_length:
  assumes "distinct (map key_of tbl)" and "key_of ` set tbl \<inter> key_of ` set ws = {}"
  shows "length (put_all tbl ws) = length tbl + card (key_of ` set ws)"
proof -
  have "length (put_all tbl ws) = card (set (map key_of (put_all tbl ws)))"
    using distinct_card [OF put_all_distinct [OF assms(1), of ws]] by simp
  also have "\<dots> = card (key_of ` set tbl \<union> key_of ` set ws)"
    by (simp add: put_all_keys_set)
  also have "\<dots> = card (key_of ` set tbl) + card (key_of ` set ws)"
    using assms(2) by (simp add: card_Un_disjoint)
  also have "card (key_of ` set tbl) = length tbl"
    using distinct_card [OF assms(1)] by simp
  finally show ?thesis .
qed

lemma written_keys_card: "card (key_of ` set (written P p)) = card (set (written P p))"
  by (rule card_image) (auto simp: inj_on_def dest: written_key_inj)

text \<open>
  C1, amended: when the identifier, the title and the timestamp of a record are non-empty
  after alias probing, the loop body hands to \<open>put_item\<close> exactly one \<open>PAPER#\<close> item, then
  one \<open>CATEGORY#\<close> item for each entry of the categories list, one \<open>AUTHOR#\<close> item for
  each entry of the authors list and one \<open>KEYWORD#\<close> item for each extracted keyword, in
  this order and with repeated entries put as often as they occur; the number of puts and
  the growth of the item counters are \<open>1 + |categories| + |authors| + |keywords|\<close>. Every
  item put is stored, but the table keeps one item for each pair of partition key and
  sort key: a table with one item per key pair and with none of the keys of the record
  grows by one \<open>PAPER#\<close> item, one item for each different category, one for each
  different author and one for each keyword.
\<close>

theorem load_paper_puts_and_stored:
  assumes "safe_str (py_or (raw_arxiv_id p) (raw_id p)) \<noteq> []"
    and "safe_str (raw_title p) \<noteq> []"
    and "safe_str (py_or (py_or (raw_published p) (raw_updated p)) (raw_date p)) \<noteq> []"
  shows "written P p =
           [paper_item (paper_id p) (paper_date P p) (paper_core p)]
           @ map (cat_item (paper_id p) (paper_date P p) (paper_core p)) (or_empty (raw_categories p))
           @ map (a_item (paper_id p) (paper_date P p) (paper_core p)) (or_empty (raw_authors p))
           @ map (k_item (paper_id p) (paper_date P p) (paper_core p))
               (extract_keywords (safe_str (raw_abstract p)) 10)
     \<and> requests (load_paper P st p) = requests st @ written P p
     \<and> length (written P p) =
           1 + length (or_empty (raw_categories p)) + length (or_empty (raw_authors p))
           + length (extract_keywords (safe_str (raw_abstract p)) 10)
     \<and> paper_id_items (load_paper P st p) = paper_id_items st + 1
     \<and> category_items (load_paper P st p) = category_items st + length (or_empty (raw_categories p))
     \<and> author_items (load_paper P st p) = author_items st + length (or_empty (raw_authors p))
     \<and> keyword_items (load_paper P st p) =
           keyword_items st + length (extract_keywords (safe_str (raw_abstract p)) 10)
     \<and> total_items (load_paper P st p) = total_items st + length (written P p)
     \<and> total_papers (load_paper P st p) = total_papers st + 1
     \<and> set (written P p) \<subseteq> set (table (load_paper P st p))
     \<and> (distinct (map key_of (table st))
          \<and> key_of ` set (table st) \<inter> key_of ` set (written P p) = {} \<longrightarrow>
        length (table (load_paper P st p)) =
           length (table st)
           + (1 + card (set (or_empty (raw_categories p))) + card (set (or_empty (raw_authors p)))
              + length (extract_keywords (safe_str (raw_abstract p)) 10)))"
proof -
  have acc: "accepted p"
    using assms by (simp add: accepted_def paper_id_def paper_published_def)
  have w: "written P p =
           [paper_item (paper_id p) (paper_date P p) (paper_core p)]
           @ map (cat_item (paper_id p) (paper_date P p) (paper_core p)) (or_empty (raw_categories p))
           @ map (a_item (paper_id p) (paper_date P p) (paper_core p)) (or_empty (raw_authors p))
           @ map (k_item (paper_id p) (paper_date P p) (paper_core p))
               (extract_keywords (safe_str (raw_abstract p)) 10)"
    by (simp add: written_def acc paper_core_def)
  have l: "length (written P p) =
           1 + length (or_empty (raw_categories p)) + length (or_empty (raw_authors p))
           + length (extract_keywords (safe_str (raw_abstract p)) 10)"
    by (simp add: w)
  have t: "table (load_paper P st p) = put_all (table st) (written P p)"
    by (simp add: load_paper_accepted [OF acc])
  have sub: "set (written P p) \<subseteq> set (table (load_paper P st p))"
  proof
    fix it assume i: "it \<in> set (written P p)"
    show "it \<in> set (table (load_paper P st p))"
      unfolding t using put_all_member [OF i, of "table st"] written_key_inj [of _ P p it] i
      by blast
  qed
  have len: "length (table (load_paper P st p)) =
           length (table st)
           + (1 + card (set (or_empty (raw_categories p))) + card (set (or_empty (raw_authors p)))
              + length (extract_keywords (safe_str (raw_abstract p)) 10))"
    if "distinct (map key_of (table st))"
      and "key_of ` set (table st) \<inter> key_of ` set (written P p) = {}"
    unfolding t using put_all_length [OF that] by (simp add: written_keys_card written_card [OF acc])
  have c: "requests (load_paper P st p) = requests st @ written P p"
      "paper_id_items (load_paper P st p) = paper_id_items st + 1"
      "category_items (load_paper P st p) = category_items st + length (or_empty (raw_categories p))"
      "author_items (load_paper P st p) = author_items st + length (or_empty (raw_authors p))"
      "keyword_items (load_paper P st p) =
           keyword_items st + length (extract_keywords (safe_str (raw_abstract p)) 10)"
      "total_papers (load_paper P st p) = total_papers st + 1"
    by (simp_all add: load_paper_accepted [OF acc])
  have ti: "total_items (load_paper P st p) = total_items st + length (written P p)"
    by (simp add: total_items_def c l)
  show ?thesis
    using w l c ti sub len by blast
qed

text \<open>The record with a repeated author, loaded into the empty table: nine puts, two of
  them counted as author items, and eight stored items.\<close>

theorem load_paper_puts_and_stored_witness:
  "safe_str (py_or (raw_arxiv_id duplicate_author_paper) (raw_id duplicate_author_paper)) \<noteq> []
   \<and> safe_str (raw_title duplicate_author_paper) \<noteq> []
   \<and> safe_str (py_or (py_or (raw_published duplicate_author_paper)
         (raw_updated duplicate_author_paper)) (raw_date duplicate_author_paper)) \<noteq> []
   \<and> distinct (map key_of (table empty_loader))
   \<and> key_of ` set (table empty_loader)
       \<inter> key_of ` set (written fromisoformat_ext duplicate_author_paper) = {}
   \<and> length (requests (load_paper fromisoformat_ext empty_loader duplicate_author_paper)) = 9
   \<and> author_items (load_paper fromisoformat_ext empty_loader duplicate_author_paper) = 2
   \<and> total_items (load_paper fromisoformat_ext empty_loader duplicate_author_paper) = 9
   \<and> length (table (load_paper fromisoformat_ext empty_loader duplicate_author_paper)) = 8"
proof -
  have a: "safe_str (py_or (raw_arxiv_id duplicate_author_paper) (raw_id duplicate_author_paper)) \<noteq> []"
    by (simp add: duplicate_author_paper_def py_or_def safe_str_def)
  have b: "safe_str (raw_title duplicate_author_paper) \<noteq> []"
    by (simp add: duplicate_author_paper_def safe_str_def)
  have c: "safe_str (py_or (py_or (raw_published duplicate_author_paper)
         (raw_updated duplicate_author_paper)) (raw_date duplicate_author_paper)) \<noteq> []"
    by (simp add: duplicate_author_paper_def py_or_def safe_str_def)
  have d: "distinct (map key_of (table empty_loader))"
    by (simp add: empty_loader_def)
  have e: "key_of ` set (table empty_loader)
       \<inter> key_of ` set (written fromisoformat_ext duplicate_author_paper) = {}"
    by (simp add: empty_loader_def)
  have k: "length (extract_keywords (safe_str (raw_abstract duplicate_author_paper)) 10) = 4"
    by code_simp
  have l: "length (or_empty (raw_categories duplicate_author_paper)) = 2"
      "length (or_empty (raw_authors duplicate_author_paper)) = 2"
    by (simp_all add: duplicate_author_paper_def or_empty_def py_or_def)
  have s: "card (set (or_empty (raw_categories duplicate_author_paper))) = 2"
      "card (set (or_empty (raw_authors duplicate_author_paper))) = 1"
    by (simp_all add: duplicate_author_paper_def or_empty_def py_or_def)
  have z: "requests empty_loader = []" "table empty_loader = []" "author_items empty_loader = 0"
      "total_items empty_loader = 0"
    by (simp_all add: empty_loader_def total_items_def)
  show ?thesis
    using load_paper_puts_and_stored [OF a b c, of fromisoformat_ext empty_loader] a b c d e
    by (simp add: k l s z)
qed

text \<open>
  C1, as stated: one load pass writes \<open>1 + |categories| + |authors| + |keywords|\<close> items
  for the record, repeated entries yielding repeated items. For the record with the
  authors \<open>A. Lee\<close>, \<open>A. Lee\<close> that number is nine and nine items are put, but the two
  author items have the same key pair and the table holds eight items, one of them an
  \<open>AUTHOR#\<close> item.
\<close>

theorem duplicate_items_counterexample:
  "1 + length (or_empty (raw_categories duplicate_author_paper))
     + length (or_empty (raw_authors duplicate_author_paper))
     + length (extract_keywords (safe_str (raw_abstract duplicate_author_paper)) 10) = 9
   \<and> or_empty (raw_authors duplicate_author_paper) = [''A. Lee'', ''A. Lee'']
   \<and> length (requests (main_load fromisoformat_ext [duplicate_author_paper] [])) = 9
   \<and> length (table (main_load fromisoformat_ext [duplicate_author_paper] [])) = 8
   \<and> map PK (table (main_load fromisoformat_ext [duplicate_author_paper] []))
       = [''PAPER#2301.00002'', ''CATEGORY#cs.LG'', ''CATEGORY#cs.AI'', ''AUTHOR#A. Lee'',
          ''KEYWORD#traffic'', ''KEYWORD#forecasting'', ''KEYWORD#graph'', ''KEYWORD#models'']"
  by code_simp

end
